theory Spec2Isabelle
  imports Main "HOL-Library.Char_ord" "HOL-Library.List_Lexorder"
begin

section \<open>The environment accessor \<open>getenv\<close>\<close>

text \<open>
  \<open>process.env\<close> is a dictionary from variable names to strings; a variable that is not
  set reads as \<open>undefined\<close>, which is the only way \<open>typeof value !== "string"\<close> holds.
  \<open>Number.parseFloat\<close> and \<open>Number.isNaN\<close> belong to the JavaScript runtime and are taken
  as parameters \<open>parseFloat\<close> and \<open>isNaN\<close> over a type \<open>'n\<close> of numbers.
  A \<open>throw\<close> is the left summand, \<open>null\<close> is \<open>None\<close>.
\<close>

datatype js_error = TypeError string

datatype 'n env_value = EnvString string | EnvNumber 'n

definition getenv ::
  "(string \<Rightarrow> 'n) \<Rightarrow> ('n \<Rightarrow> bool) \<Rightarrow> (string \<rightharpoonup> string) \<Rightarrow>
   string \<Rightarrow> bool \<Rightarrow> bool \<Rightarrow> js_error + 'n env_value option" where
  "getenv parseFloat isNaN env name number assert =
     (case env name of
        None \<Rightarrow>
          if assert then Inl (TypeError (''Missing environment variable: '' @ name))
          else Inr None
      | Some v \<Rightarrow>
          if number then
            (let parsed = parseFloat v in
             if isNaN parsed then
               (if assert then Inl (TypeError (''Missing environment variable: '' @ name))
                else Inr None)
             else Inr (Some (EnvNumber parsed)))
          else Inr (Some (EnvString v)))"

text \<open>
  A stand-in for the runtime's number parser on the inputs of the repository's test
  file: \<open>"-123"\<close> is a number, \<open>"foo"\<close> is not.
\<close>

definition test_parseFloat :: "string \<Rightarrow> int option" where
  "test_parseFloat s = (if s = ''-123'' then Some (- 123) else None)"

definition test_isNaN :: "int option \<Rightarrow> bool" where
  "test_isNaN x = (x = None)"

definition test_env :: "string \<rightharpoonup> string" where
  "test_env = [''KEY1'' \<mapsto> ''foo'', ''KEY4'' \<mapsto> ''-123'']"

section \<open>Values, levels, colours\<close>

text \<open>
  \<open>LogLevel\<close> is the source's enum. A \<open>Chalk\<close> is a colour function of the chalk library,
  kept as the constructor call that made it (\<open>chalk.hex(h)\<close>, \<open>chalk.hsl(h, s, l)\<close>).
  Two revisions of the Logger are in the repository: \<open>part_000\<close> (hex palette, lines
  tagged with the namespace) and \<open>part_001\<close> (HSL palette, no tag).
\<close>

datatype LogLevel = VERBOSE | INFO | WARNING | ERROR

datatype Chalk = Hex string | Hsl nat nat nat

datatype revision = Part000 | Part001

fun DEFAULT_COLORS :: "revision \<Rightarrow> LogLevel \<Rightarrow> Chalk" where
  "DEFAULT_COLORS Part000 VERBOSE = Hex ''#AAAAAA''"
| "DEFAULT_COLORS Part000 INFO = Hex ''#00AAAA''"
| "DEFAULT_COLORS Part000 WARNING = Hex ''#FFFF55''"
| "DEFAULT_COLORS Part000 ERROR = Hex ''#FF5555''"
| "DEFAULT_COLORS Part001 VERBOSE = Hsl 280 45 60"
| "DEFAULT_COLORS Part001 INFO = Hsl 0 0 60"
| "DEFAULT_COLORS Part001 WARNING = Hsl 60 45 60"
| "DEFAULT_COLORS Part001 ERROR = Hsl 0 45 60"

fun ERROR_TYPES :: "LogLevel \<Rightarrow> string" where
  "ERROR_TYPES VERBOSE = ''D''"
| "ERROR_TYPES INFO = ''I''"
| "ERROR_TYPES WARNING = ''W''"
| "ERROR_TYPES ERROR = ''E''"

text \<open>
  The values a caller can pass as \<open>content: unknown\<close>. Only the test
  \<open>typeof content !== "string"\<close> looks at them; everything else goes through the
  runtime's \<open>util.inspect\<close>.
\<close>

datatype js_value =
    JString string
  | JNumber int
  | JBoolean bool
  | JNull
  | JUndefined
  | JObject "(string \<times> js_value) list"

text \<open>
  What the Logger takes from the Node runtime and from \<open>app-root-path\<close>:
  \<open>util.inspect\<close>, the substitution that \<open>util.format\<close> performs when it is given format
  arguments, and \<open>appRoot.path\<close>. With a single argument \<open>util.format\<close> returns that
  argument as it is.
\<close>

record node =
  util_inspect :: "js_value \<Rightarrow> string"
  util_format_args :: "string \<Rightarrow> js_value list \<Rightarrow> string"
  appRoot_path :: string

definition util_format :: "node \<Rightarrow> string \<Rightarrow> js_value list \<Rightarrow> string" where
  "util_format N content format =
     (if format = [] then content else util_format_args N content format)"

definition path_join :: "string \<Rightarrow> string \<Rightarrow> string" where
  \<comment> \<open>\<open>path.join(a, b)\<close> for a directory \<open>a\<close> and an entry name \<open>b\<close> without separators\<close>
  "path_join a b = a @ ''/'' @ b"

definition endsWith :: "string \<Rightarrow> string \<Rightarrow> bool" where
  "endsWith s suf = (length suf \<le> length s \<and> drop (length s - length suf) s = suf)"

section \<open>UTC instants\<close>

text \<open>
  \<open>DateTime.now().toUTC()\<close> is a luxon object holding the calendar fields of the instant
  in UTC. The instant is an input of every call that reads the clock.
\<close>

record DateTime =
  year :: nat
  month :: nat
  day :: nat
  hour :: nat
  minute :: nat
  second :: nat
  millisecond :: nat

definition valid_utc :: "DateTime \<Rightarrow> bool" where
  "valid_utc t = (year t \<le> 9999 \<and> 1 \<le> month t \<and> month t \<le> 12 \<and> 1 \<le> day t \<and> day t \<le> 31
     \<and> hour t < 24 \<and> minute t < 60 \<and> second t < 60 \<and> millisecond t < 1000)"

definition same_utc_day :: "DateTime \<Rightarrow> DateTime \<Rightarrow> bool" where
  "same_utc_day a b = (year a = year b \<and> month a = month b \<and> day a = day b)"

definition digit_char :: "nat \<Rightarrow> char" where
  "digit_char d = char_of (48 + d)"

function show_nat :: "nat \<Rightarrow> string" where
  "show_nat n = (if n < 10 then [digit_char n] else show_nat (n div 10) @ [digit_char (n mod 10)])"
  by pat_completeness auto
termination
  by (relation "measure id") auto

declare show_nat.simps [simp del]

definition padStart :: "nat \<Rightarrow> nat \<Rightarrow> string" where
  "padStart n k = replicate (n - length (show_nat k)) (CHR ''0'') @ show_nat k"

definition toISODate :: "DateTime \<Rightarrow> string" where
  \<comment> \<open>Modelled from the spec: luxon's \<open>toISODate\<close> is not in the repository; the spec gives
      the ISO calendar date \<open>YYYY-MM-DD\<close>, zero-padded, for years up to 9999.\<close>
  "toISODate t = padStart 4 (year t) @ ''-'' @ padStart 2 (month t) @ ''-'' @ padStart 2 (day t)"

definition toISO :: "DateTime \<Rightarrow> string" where
  \<comment> \<open>Modelled from the spec: luxon's \<open>toISO\<close> is not in the repository; the spec gives an
      ISO-8601 timestamp with timezone designator, which for UTC is \<open>Z\<close>.\<close>
  "toISO t = toISODate t @ ''T'' @ padStart 2 (hour t) @ '':'' @ padStart 2 (minute t) @ '':''
     @ padStart 2 (second t) @ ''.'' @ padStart 3 (millisecond t) @ ''Z''"

section \<open>Logger instances and the process state\<close>

record Logger =
  namespace :: string
  colors :: "LogLevel \<Rightarrow> Chalk"
  dir :: string

text \<open>
  \<open>LoggerOptions\<close>: \<open>part_000\<close> reads \<open>colors\<close> (hex strings), \<open>part_001\<close> reads
  \<open>colorsHSL\<close> (triples); a field the revision does not declare is not looked at.
\<close>

record LoggerOptions =
  opt_colors :: "(LogLevel \<Rightarrow> string) option"
  opt_colorsHSL :: "(LogLevel \<Rightarrow> nat \<times> nat \<times> nat) option"
  opt_logDir :: "string option"

definition new_Logger :: "revision \<Rightarrow> node \<Rightarrow> string \<Rightarrow> LoggerOptions option \<Rightarrow> Logger" where
  "new_Logger rv N ns options =
     \<lparr> namespace = ns,
       colors =
         (case rv of
            Part000 \<Rightarrow>
              (case Option.bind options opt_colors of
                 Some cs \<Rightarrow> (\<lambda>level. Hex (cs level))
               | None \<Rightarrow> DEFAULT_COLORS Part000)
          | Part001 \<Rightarrow>
              (case Option.bind options opt_colorsHSL of
                 Some cs \<Rightarrow> (\<lambda>level. case cs level of (h, s, l) \<Rightarrow> Hsl h s l)
               | None \<Rightarrow> DEFAULT_COLORS Part001)),
       dir =
         (case Option.bind options opt_logDir of
            Some d \<Rightarrow> if d \<noteq> [] then d else path_join (appRoot_path N) ''logs''
          | None \<Rightarrow> path_join (appRoot_path N) ''logs'') \<rparr>"

text \<open>
  An in-flight \<open>sz.update\<close> stream: the archive path and input paths it was given, and
  what its \<open>end\<close> listener closes over (\<open>this\<close> and \<open>needArchive\<close>).
\<close>

record compaction =
  this :: Logger
  archive :: string
  inputs :: "string list"
  needArchive :: "string list"

text \<open>
  The process state. \<open>loggers\<close> is the static \<open>Map\<close>, holding references into \<open>heap\<close>
  (a reference is the index of the object); \<open>isArchiving\<close> is the static flag;
  \<open>stdout\<close> is the sequence of writes, each the colour applied and the text written;
  \<open>fs\<close> maps a directory path to its entries (name and content);
  \<open>streams\<close> are the compactions in progress.
\<close>

record state =
  loggers :: "string \<rightharpoonup> nat"
  heap :: "Logger list"
  isArchiving :: bool
  stdout :: "(Chalk \<times> string) list"
  fs :: "string \<rightharpoonup> (string \<times> string) list"
  streams :: "compaction list"

text \<open>
  A colour function of chalk adds colour codes to a text and nothing else; a write to
  the console is kept as the colour and the text, and stripping the codes gives the
  text back.
\<close>

definition strip_color :: "Chalk \<times> string \<Rightarrow> string" where
  "strip_color w = snd w"

section \<open>The file system calls\<close>

text \<open>
  \<open>path.join(d, name)\<close> names the entry \<open>name\<close> of directory \<open>d\<close>, so the calls below take
  the two parts. \<open>mkdirSync\<close> with \<open>recursive\<close> creates the directory when it is absent and
  is silent when it exists. \<open>appendFileSync\<close> extends the file or creates it; \<open>log\<close>
  calls it after \<open>mkdirSync\<close>, so the directory is there (lemma \<open>mkdirSync_exists\<close>), and
  on an absent directory the model leaves the file system as it is. \<open>rmSync\<close> without
  \<open>force\<close> throws on a missing entry: \<open>None\<close>.
\<close>

definition mkdirSync :: "string \<Rightarrow> (string \<rightharpoonup> (string \<times> string) list) \<Rightarrow> (string \<rightharpoonup> (string \<times> string) list)" where
  "mkdirSync d F = (case F d of None \<Rightarrow> F(d \<mapsto> []) | Some _ \<Rightarrow> F)"

fun append_entry :: "string \<Rightarrow> string \<Rightarrow> (string \<times> string) list \<Rightarrow> (string \<times> string) list" where
  "append_entry name data [] = [(name, data)]"
| "append_entry name data ((n, c) # es) =
     (if n = name then (n, c @ data) # es else (n, c) # append_entry name data es)"

definition appendFileSync ::
  "string \<Rightarrow> string \<Rightarrow> string \<Rightarrow> (string \<rightharpoonup> (string \<times> string) list) \<Rightarrow> (string \<rightharpoonup> (string \<times> string) list)" where
  "appendFileSync d name data F =
     (case F d of None \<Rightarrow> F | Some es \<Rightarrow> F(d \<mapsto> append_entry name data es))"

definition readdirSync :: "string \<Rightarrow> (string \<rightharpoonup> (string \<times> string) list) \<Rightarrow> string list" where
  "readdirSync d F = (case F d of None \<Rightarrow> [] | Some es \<Rightarrow> map fst es)"

definition rmSync ::
  "string \<Rightarrow> string \<Rightarrow> (string \<rightharpoonup> (string \<times> string) list) \<Rightarrow> (string \<rightharpoonup> (string \<times> string) list) option" where
  "rmSync d name F =
     (case F d of
        None \<Rightarrow> None
      | Some es \<Rightarrow>
          if name \<in> fst ` set es then Some (F(d \<mapsto> filter (\<lambda>e. fst e \<noteq> name) es)) else None)"

text \<open>The content of a file, empty when the file or its directory does not exist.\<close>

definition file_content :: "(string \<rightharpoonup> (string \<times> string) list) \<Rightarrow> string \<Rightarrow> string \<Rightarrow> string" where
  "file_content F d name =
     (case F d of None \<Rightarrow> [] | Some es \<Rightarrow> (case map_of es name of None \<Rightarrow> [] | Some c \<Rightarrow> c))"

section \<open>The registry\<close>

definition getLogger ::
  "revision \<Rightarrow> node \<Rightarrow> string \<Rightarrow> LoggerOptions option \<Rightarrow> state \<Rightarrow> nat \<times> state" where
  "getLogger rv N ns creationOptions st =
     (case loggers st ns of
        Some ref \<Rightarrow> (ref, st)
      | None \<Rightarrow>
          (let logger = new_Logger rv N ns creationOptions;
               ref = length (heap st)
           in (ref, st\<lparr> heap := heap st @ [logger], loggers := (loggers st)(ns \<mapsto> ref) \<rparr>)))"

text \<open>
  \<open>appRoot.require("./package.json").name\<close> throws, or yields the manifest's \<open>name\<close>, which
  is \<open>undefined\<close> when the manifest declares none. The variable \<open>namespace\<close> holds
  \<open>undefined\<close> as \<open>None\<close>; \<open>namespace || "default"\<close> takes the right operand for
  \<open>undefined\<close> and for the empty string.
\<close>

datatype manifest_lookup = LookupThrows | NameUndefined | Name string

definition getDefault :: "revision \<Rightarrow> node \<Rightarrow> manifest_lookup \<Rightarrow> state \<Rightarrow> nat \<times> state" where
  "getDefault rv N lookup st =
     (let ns = (case lookup of
                  LookupThrows \<Rightarrow> Some []
                | NameUndefined \<Rightarrow> None
                | Name n \<Rightarrow> Some n)
      in getLogger rv N
           (case ns of None \<Rightarrow> ''default'' | Some n \<Rightarrow> if n \<noteq> [] then n else ''default'')
           None st)"

section \<open>Writer and archiver\<close>

fun log_message :: "revision \<Rightarrow> string \<Rightarrow> string \<Rightarrow> string \<Rightarrow> string \<Rightarrow> string" where
  "log_message Part000 ty timestamp ns body = ty @ '' '' @ timestamp @ '' ['' @ ns @ '']: '' @ body"
| "log_message Part001 ty timestamp ns body = ty @ '' '' @ timestamp @ '': '' @ body"

definition normalize_content :: "node \<Rightarrow> js_value \<Rightarrow> string" where
  \<comment> \<open>\<open>if (typeof content !== "string") content = util.inspect(content)\<close>\<close>
  "normalize_content N content = (case content of JString s \<Rightarrow> s | _ \<Rightarrow> util_inspect N content)"

text \<open>The line that a call builds, before the newline is added.\<close>

definition log_line ::
  "revision \<Rightarrow> node \<Rightarrow> Logger \<Rightarrow> LogLevel \<Rightarrow> js_value \<Rightarrow> js_value list \<Rightarrow> DateTime \<Rightarrow> string" where
  "log_line rv N lg level content format now =
     log_message rv (ERROR_TYPES level) (toISO now) (namespace lg)
       (util_format N (normalize_content N content) format)"

definition log_filename :: "DateTime \<Rightarrow> string" where
  "log_filename now = toISODate now @ ''.log''"

definition log ::
  "revision \<Rightarrow> node \<Rightarrow> Logger \<Rightarrow> LogLevel \<Rightarrow> js_value \<Rightarrow> js_value list \<Rightarrow> DateTime \<Rightarrow> state \<Rightarrow> state" where
  "log rv N lg level content format now st =
     (let color = DEFAULT_COLORS rv level;
          message = log_line rv N lg level content format now;
          st = st\<lparr> stdout := stdout st @ [(color, message @ [CHR 0x0A])] \<rparr>;
          filename = log_filename now;
          st = st\<lparr> fs := mkdirSync (dir lg) (fs st) \<rparr>;
          st = st\<lparr> fs := appendFileSync (dir lg) filename (message @ [CHR 0x0A]) (fs st) \<rparr>;
          logfiles = sort (readdirSync (dir lg) (fs st));
          needArchive = filter (\<lambda>file. endsWith file ''.log'' \<and> file \<noteq> filename) logfiles
      in if \<not> isArchiving st \<and> needArchive \<noteq> [] then
           st\<lparr> isArchiving := True,
               streams := streams st @
                 [\<lparr> this = lg,
                    archive = path_join (dir lg) ''archive.7z'',
                    inputs = map (\<lambda>file. path_join (dir lg) file) needArchive,
                    needArchive = needArchive \<rparr>] \<rparr>
         else st)"

definition verbose ::
  "revision \<Rightarrow> node \<Rightarrow> Logger \<Rightarrow> js_value \<Rightarrow> js_value list \<Rightarrow> DateTime \<Rightarrow> state \<Rightarrow> state" where
  "verbose rv N lg content format now st =
     log rv N lg VERBOSE (JString (normalize_content N content)) format now st"

definition info ::
  "revision \<Rightarrow> node \<Rightarrow> Logger \<Rightarrow> js_value \<Rightarrow> js_value list \<Rightarrow> DateTime \<Rightarrow> state \<Rightarrow> state" where
  "info rv N lg content format now st =
     log rv N lg INFO (JString (normalize_content N content)) format now st"

definition warn ::
  "revision \<Rightarrow> node \<Rightarrow> Logger \<Rightarrow> js_value \<Rightarrow> js_value list \<Rightarrow> DateTime \<Rightarrow> state \<Rightarrow> state" where
  "warn rv N lg content format now st =
     log rv N lg WARNING (JString (normalize_content N content)) format now st"

definition error ::
  "revision \<Rightarrow> node \<Rightarrow> Logger \<Rightarrow> js_value \<Rightarrow> js_value list \<Rightarrow> DateTime \<Rightarrow> state \<Rightarrow> state" where
  "error rv N lg content format now st =
     log rv N lg ERROR (JString (normalize_content N content)) format now st"

text \<open>
  The \<open>end\<close> listener. The loop over \<open>needArchive\<close> stops at the first \<open>rmSync\<close> that
  throws, and the listener with it: the removals made so far stay, nothing after the
  loop runs.
\<close>

fun rm_all ::
  "string \<Rightarrow> string list \<Rightarrow> (string \<rightharpoonup> (string \<times> string) list) \<Rightarrow> bool \<times> (string \<rightharpoonup> (string \<times> string) list)" where
  "rm_all d [] F = (True, F)"
| "rm_all d (file # files) F =
     (case rmSync d file F of None \<Rightarrow> (False, F) | Some F' \<Rightarrow> rm_all d files F')"

fun join_comma :: "string list \<Rightarrow> string" where
  "join_comma [] = []"
| "join_comma [x] = x"
| "join_comma (x # y # zs) = x @ '', '' @ join_comma (y # zs)"

definition on_end :: "revision \<Rightarrow> node \<Rightarrow> compaction \<Rightarrow> DateTime \<Rightarrow> state \<Rightarrow> state" where
  "on_end rv N c now st =
     (case rm_all (dir (this c)) (needArchive c) (fs st) of
        (ok, F) \<Rightarrow>
          if \<not> ok then st\<lparr> fs := F \<rparr>
          else
            (log rv N (this c) INFO
               (JString (''[Logger] Archived '' @ show_nat (length (needArchive c))
                  @ '' log file(s): '' @ join_comma (needArchive c)))
               [] now (st\<lparr> fs := F \<rparr>))
            \<lparr> isArchiving := False \<rparr>)"

section \<open>Runs of the process\<close>

text \<open>
  What can happen to the process: a call of the Logger's interface, or a signal of the
  compression engine on the \<open>k\<close>-th stream in progress. The source registers a listener
  for \<open>end\<close> only; on \<open>error\<close> the stream is over and no code of the Logger runs.
\<close>

datatype event =
    CallGetLogger string "LoggerOptions option"
  | CallGetDefault manifest_lookup
  | CallLog Logger LogLevel js_value "js_value list" DateTime
  | CallVerbose Logger js_value "js_value list" DateTime
  | CallInfo Logger js_value "js_value list" DateTime
  | CallWarn Logger js_value "js_value list" DateTime
  | CallError Logger js_value "js_value list" DateTime
  | StreamEnd nat DateTime
  | StreamError nat

definition drop_nth :: "nat \<Rightarrow> 'a list \<Rightarrow> 'a list" where
  "drop_nth k xs = take k xs @ drop (Suc k) xs"

fun step :: "revision \<Rightarrow> node \<Rightarrow> state \<Rightarrow> event \<Rightarrow> state" where
  "step rv N st (CallGetLogger ns opts) = snd (getLogger rv N ns opts st)"
| "step rv N st (CallGetDefault lookup) = snd (getDefault rv N lookup st)"
| "step rv N st (CallLog lg level content format now) = log rv N lg level content format now st"
| "step rv N st (CallVerbose lg content format now) = verbose rv N lg content format now st"
| "step rv N st (CallInfo lg content format now) = info rv N lg content format now st"
| "step rv N st (CallWarn lg content format now) = warn rv N lg content format now st"
| "step rv N st (CallError lg content format now) = error rv N lg content format now st"
| "step rv N st (StreamEnd k now) =
     (if k < length (streams st)
      then on_end rv N (streams st ! k) now (st\<lparr> streams := drop_nth k (streams st) \<rparr>)
      else st)"
| "step rv N st (StreamError k) =
     (if k < length (streams st) then st\<lparr> streams := drop_nth k (streams st) \<rparr> else st)"

definition run :: "revision \<Rightarrow> node \<Rightarrow> state \<Rightarrow> event list \<Rightarrow> state" where
  "run rv N st evs = foldl (step rv N) st evs"

definition init :: "(string \<rightharpoonup> (string \<times> string) list) \<Rightarrow> state" where
  "init F = \<lparr> loggers = Map.empty, heap = [], isArchiving = False, stdout = [], fs = F, streams = [] \<rparr>"


section \<open>Predicates used in the statements\<close>

text \<open>Reading a decimal numeral back, the inverse of \<open>show_nat\<close>.\<close>

definition read_nat :: "string \<Rightarrow> nat" where
  "read_nat s = foldl (\<lambda>a c. 10 * a + (of_char c - 48)) 0 s"

text \<open>
  At most one compaction is in progress, and while one is, the flag is set.
\<close>

definition at_most_one :: "state \<Rightarrow> bool" where
  "at_most_one st = (length (streams st) \<le> 1 \<and> (streams st \<noteq> [] \<longrightarrow> isArchiving st))"

text \<open>The flag is set although no compaction is in progress.\<close>

definition wedged :: "state \<Rightarrow> bool" where
  "wedged st = (isArchiving st \<and> streams st = [])"

text \<open>
  Every registered reference points into the heap; between two states the registry
  only gains names and the heap only grows.
\<close>

definition registry_wf :: "state \<Rightarrow> bool" where
  "registry_wf st = (\<forall>ns r. loggers st ns = Some r \<longrightarrow> r < length (heap st))"

definition registry_le :: "state \<Rightarrow> state \<Rightarrow> bool" where
  "registry_le st st' =
     ((\<forall>ns r. loggers st ns = Some r \<longrightarrow> loggers st' ns = Some r)
      \<and> (\<exists>more. heap st' = heap st @ more))"

text \<open>A text that is one line: it ends with a newline and has no other.\<close>

definition single_line :: "string \<Rightarrow> bool" where
  "single_line s = (s \<noteq> [] \<and> last s = CHR 0x0A \<and> CHR 0x0A \<notin> set (butlast s))"

section \<open>Sample inputs\<close>

text \<open>
  A runtime, an instant on 4 March 2022 and one on the next UTC day, a log directory
  holding two files of earlier days and a file that is no log, and the Logger that
  \<open>getLogger\<close> builds for the namespace \<open>core\<close> without options.
\<close>

definition test_node :: node where
  "test_node = \<lparr> util_inspect = (\<lambda>v. ''[value]''), util_format_args = (\<lambda>content format. content),
                 appRoot_path = ''/app'' \<rparr>"

definition test_time :: DateTime where
  "test_time = \<lparr> year = 2022, month = 3, day = 4, hour = 5, minute = 6, second = 7, millisecond = 89 \<rparr>"

definition test_time2 :: DateTime where
  "test_time2 = \<lparr> year = 2022, month = 3, day = 5, hour = 0, minute = 0, second = 0, millisecond = 0 \<rparr>"

definition test_fs :: "string \<rightharpoonup> (string \<times> string) list" where
  "test_fs = [''/app/logs'' \<mapsto>
     [(''2020-01-02.log'', ''x''), (''notes.txt'', ''n''), (''2020-01-01.log'', ''y'')]]"

definition test_logger :: "revision \<Rightarrow> Logger" where
  "test_logger rv = new_Logger rv test_node ''core'' None"

text \<open>
  Creation options that override the palette and the directory, the Logger of another
  namespace, and a second instant on 4 March 2022.
\<close>

definition test_options :: "string \<Rightarrow> LoggerOptions" where
  "test_options d = \<lparr> opt_colors = Some (\<lambda>level. ''#000000''),
                      opt_colorsHSL = Some (\<lambda>level. (0, 0, 0)),
                      opt_logDir = Some d \<rparr>"

definition other_logger :: "revision \<Rightarrow> Logger" where
  "other_logger rv = new_Logger rv test_node ''other'' None"

definition test_time3 :: DateTime where
  "test_time3 = \<lparr> year = 2022, month = 3, day = 4, hour = 23, minute = 59, second = 59, millisecond = 999 \<rparr>"

section \<open>Decimal printing and ISO dates\<close>

lemma read_nat_snoc: "read_nat (s @ [c]) = 10 * read_nat s + (of_char c - 48)"
  by (simp add: read_nat_def)

lemma of_char_digit: "d < 10 \<Longrightarrow> of_char (digit_char d) - 48 = d"
  by (simp add: digit_char_def)

lemma read_show_nat: "read_nat (show_nat n) = n"
proof (induction n rule: show_nat.induct)
  case (1 n)
  show ?case
  proof (cases "n < 10")
    case True
    then show ?thesis
      by (subst show_nat.simps) (simp add: read_nat_def of_char_digit)
  next
    case False
    with 1 show ?thesis
      by (subst show_nat.simps) (simp add: read_nat_snoc of_char_digit)
  qed
qed

lemma read_nat_zeros: "read_nat (replicate k (CHR ''0'') @ s) = read_nat s"
  by (induction k) (simp_all add: read_nat_def)

lemma read_padStart: "read_nat (padStart k n) = n"
  by (simp add: padStart_def read_nat_zeros read_show_nat)

lemma length_show_nat: "n < 10 ^ k \<Longrightarrow> 0 < k \<Longrightarrow> length (show_nat n) \<le> k"
proof (induction n arbitrary: k rule: show_nat.induct)
  case (1 n)
  show ?case
  proof (cases "n < 10")
    case True
    with 1(3) show ?thesis by (subst show_nat.simps) simp
  next
    case False
    then obtain j where k: "k = Suc j" "0 < j"
      using 1(2,3) by (cases k; cases "k - 1") auto
    have "n div 10 < 10 ^ j" using 1(2) k by (simp add: less_mult_imp_div_less)
    with 1(1)[OF False this k(2)] False k show ?thesis
      by (subst show_nat.simps) simp
  qed
qed

lemma length_padStart: "n < 10 ^ k \<Longrightarrow> 0 < k \<Longrightarrow> length (padStart k n) = k"
  using length_show_nat[of n k] by (simp add: padStart_def)

lemma toISODate_inj:
  assumes "valid_utc a" "valid_utc b" "toISODate a = toISODate b"
  shows "same_utc_day a b"
proof -
  have ly: "length (padStart 4 (year a)) = 4" "length (padStart 4 (year b)) = 4"
    using assms(1,2) by (simp_all add: valid_utc_def length_padStart)
  have lm: "length (padStart 2 (month a)) = 2" "length (padStart 2 (month b)) = 2"
    using assms(1,2) by (simp_all add: valid_utc_def length_padStart)
  from assms(3) ly have y: "padStart 4 (year a) = padStart 4 (year b)"
    and r: "padStart 2 (month a) @ ''-'' @ padStart 2 (day a) = padStart 2 (month b) @ ''-'' @ padStart 2 (day b)"
    by (simp_all add: toISODate_def)
  from r lm have m: "padStart 2 (month a) = padStart 2 (month b)"
    and d: "padStart 2 (day a) = padStart 2 (day b)"
    by simp_all
  from y have "year a = year b" by (metis read_padStart)
  moreover from m have "month a = month b" by (metis read_padStart)
  moreover from d have "day a = day b" by (metis read_padStart)
  ultimately show ?thesis by (simp add: same_utc_day_def)
qed

lemma log_filename_eq_iff:
  "valid_utc a \<Longrightarrow> valid_utc b \<Longrightarrow> log_filename a = log_filename b \<longleftrightarrow> same_utc_day a b"
  by (auto simp: log_filename_def toISODate_inj) (simp add: same_utc_day_def toISODate_def)

section \<open>What one call of \<open>log\<close> changes\<close>

lemma stdout_log:
  "stdout (log rv N lg level content format now st) =
     stdout st @ [(DEFAULT_COLORS rv level, log_line rv N lg level content format now @ [CHR 0x0A])]"
  by (simp add: log_def Let_def)

lemma fs_log:
  "fs (log rv N lg level content format now st) =
     appendFileSync (dir lg) (log_filename now) (log_line rv N lg level content format now @ [CHR 0x0A])
       (mkdirSync (dir lg) (fs st))"
  by (simp add: log_def Let_def)

lemma loggers_log: "loggers (log rv N lg level content format now st) = loggers st"
  by (simp add: log_def Let_def)

lemma heap_log: "heap (log rv N lg level content format now st) = heap st"
  by (simp add: log_def Let_def)

lemma streams_log:
  "streams (log rv N lg level content format now st) =
    (let need = filter (\<lambda>file. endsWith file ''.log'' \<and> file \<noteq> log_filename now)
                  (sort (readdirSync (dir lg) (fs (log rv N lg level content format now st))))
     in if \<not> isArchiving st \<and> need \<noteq> [] then
          streams st @ [\<lparr> this = lg, archive = path_join (dir lg) ''archive.7z'',
                          inputs = map (path_join (dir lg)) need, needArchive = need \<rparr>]
        else streams st)"
  by (simp add: log_def Let_def)

lemma mkdirSync_exists: "mkdirSync d F d \<noteq> None"
  by (simp add: mkdirSync_def split: option.splits)

lemma map_of_append_entry:
  "map_of (append_entry name data es) name = Some ((case map_of es name of None \<Rightarrow> [] | Some c \<Rightarrow> c) @ data)"
  by (induction es) auto

lemma map_of_append_entry_other:
  "n \<noteq> name \<Longrightarrow> map_of (append_entry name data es) n = map_of es n"
  by (induction es) auto

lemma file_content_log:
  "file_content (fs (log rv N lg level content format now st)) (dir lg) (log_filename now) =
     file_content (fs st) (dir lg) (log_filename now) @ log_line rv N lg level content format now @ [CHR 0x0A]"
  by (simp add: fs_log file_content_def appendFileSync_def mkdirSync_def map_of_append_entry split: option.splits)

lemma normalize_idem: "normalize_content N (JString (normalize_content N c)) = normalize_content N c"
  by (simp add: normalize_content_def)

lemma log_line_normalized:
  "log_line rv N lg level (JString (normalize_content N c)) format now = log_line rv N lg level c format now"
  by (simp add: log_line_def normalize_idem)

lemma log_normalized:
  "log rv N lg level (JString (normalize_content N c)) format now st = log rv N lg level c format now st"
  by (simp add: log_def log_line_normalized)

section \<open>The archiving flag\<close>

lemma log_guard: "isArchiving st \<Longrightarrow> streams (log rv N lg level c f now st) = streams st"
  by (simp add: log_def Let_def)

lemma log_guard_flag: "isArchiving st \<Longrightarrow> isArchiving (log rv N lg level c f now st)"
  by (simp add: log_def Let_def)

lemma log_sets_flag:
  "streams (log rv N lg level c f now st) \<noteq> streams st \<Longrightarrow> isArchiving (log rv N lg level c f now st)"
  by (simp add: log_def Let_def split: if_splits)

lemma at_most_one_log: "at_most_one st \<Longrightarrow> at_most_one (log rv N lg level c f now st)"
  unfolding at_most_one_def
  by (cases "isArchiving st") (auto simp: log_def Let_def)

lemma streams_getLogger: "streams (snd (getLogger rv N ns opts st)) = streams st"
  by (simp add: getLogger_def Let_def split: option.splits)

lemma isArchiving_getLogger: "isArchiving (snd (getLogger rv N ns opts st)) = isArchiving st"
  by (simp add: getLogger_def Let_def split: option.splits)

lemma at_most_one_getLogger: "at_most_one st \<Longrightarrow> at_most_one (snd (getLogger rv N ns opts st))"
  by (simp add: at_most_one_def streams_getLogger isArchiving_getLogger)

lemma streams_on_end:
  "isArchiving st \<Longrightarrow> streams (on_end rv N c now st) = streams st"
  by (simp add: on_end_def log_guard split: prod.splits)

lemma drop_nth_single: "length xs \<le> 1 \<Longrightarrow> k < length xs \<Longrightarrow> drop_nth k xs = []"
  by (cases xs) (auto simp: drop_nth_def)

lemma at_most_one_step: "at_most_one st \<Longrightarrow> at_most_one (step rv N st e)"
proof (cases e)
  case (StreamEnd k now)
  assume a: "at_most_one st"
  show ?thesis
  proof (cases "k < length (streams st)")
    case True
    with a have fl: "isArchiving st" and dn: "drop_nth k (streams st) = []"
      by (auto simp: at_most_one_def drop_nth_single)
    have "streams (on_end rv N (streams st ! k) now (st\<lparr>streams := []\<rparr>)) = []"
      using fl by (simp add: streams_on_end)
    with True dn StreamEnd show ?thesis by (simp add: at_most_one_def)
  next
    case False
    with a StreamEnd show ?thesis by simp
  qed
next
  case (StreamError k)
  assume a: "at_most_one st"
  then show ?thesis using StreamError
    by (auto simp: at_most_one_def drop_nth_single)
qed (simp_all add: at_most_one_log verbose_def info_def warn_def error_def getDefault_def
       at_most_one_getLogger)

lemma at_most_one_run: "at_most_one st \<Longrightarrow> at_most_one (run rv N st evs)"
  unfolding run_def by (induction evs arbitrary: st) (simp_all add: at_most_one_step)

lemma at_most_one_init: "at_most_one (init F)"
  by (simp add: at_most_one_def init_def)

lemma wedged_step: "wedged st \<Longrightarrow> wedged (step rv N st e)"
  by (cases e) (auto simp: wedged_def log_guard log_guard_flag verbose_def info_def warn_def error_def
       getDefault_def streams_getLogger isArchiving_getLogger)

lemma wedged_run: "wedged st \<Longrightarrow> wedged (run rv N st evs)"
  unfolding run_def by (induction evs arbitrary: st) (simp_all add: wedged_step)

section \<open>The registry along a run\<close>

lemma registry_le_refl: "registry_le st st"
  by (simp add: registry_le_def)

lemma registry_le_trans: "registry_le a b \<Longrightarrow> registry_le b c \<Longrightarrow> registry_le a c"
  unfolding registry_le_def by auto

lemma on_end_registry: "loggers (on_end rv N c now st) = loggers st \<and> heap (on_end rv N c now st) = heap st"
  by (simp add: on_end_def loggers_log heap_log split: prod.splits)

lemma getLogger_wf: "registry_wf st \<Longrightarrow> registry_wf (snd (getLogger rv N ns opts st))"
  by (auto simp: registry_wf_def getLogger_def Let_def less_Suc_eq split: option.splits)

lemma getLogger_le: "registry_wf st \<Longrightarrow> registry_le st (snd (getLogger rv N ns opts st))"
  by (auto simp: registry_le_def registry_wf_def getLogger_def Let_def split: option.splits)

lemma step_registry:
  "registry_wf st \<Longrightarrow> registry_wf (step rv N st e) \<and> registry_le st (step rv N st e)"
proof (cases e)
  case (CallGetLogger ns opts)
  assume "registry_wf st"
  then show ?thesis using CallGetLogger by (simp add: getLogger_wf getLogger_le)
next
  case (CallGetDefault lk)
  assume "registry_wf st"
  then show ?thesis using CallGetDefault by (simp add: getDefault_def getLogger_wf getLogger_le)
qed (simp_all add: registry_wf_def registry_le_def loggers_log heap_log verbose_def info_def
       warn_def error_def on_end_registry)

lemma run_registry:
  "registry_wf st \<Longrightarrow> registry_wf (run rv N st evs) \<and> registry_le st (run rv N st evs)"
  unfolding run_def
proof (induction evs arbitrary: st)
  case Nil
  then show ?case by (simp add: registry_le_refl)
next
  case (Cons e evs)
  from step_registry[OF Cons.prems, of rv N e]
  have w: "registry_wf (step rv N st e)" and l: "registry_le st (step rv N st e)" by simp_all
  from Cons.IH[OF w] l show ?case by (auto intro: registry_le_trans)
qed

lemma registry_wf_init: "registry_wf (init F)"
  by (simp add: registry_wf_def init_def)

lemma getLogger_registered:
  "loggers (snd (getLogger rv N ns opts st)) ns = Some (fst (getLogger rv N ns opts st))"
  by (simp add: getLogger_def Let_def split: option.splits)

lemma getLogger_known: "loggers st ns = Some r \<Longrightarrow> getLogger rv N ns opts st = (r, st)"
  by (simp add: getLogger_def)

lemma getLogger_fresh:
  "loggers st ns = None \<Longrightarrow>
     heap (snd (getLogger rv N ns opts st)) ! fst (getLogger rv N ns opts st) = new_Logger rv N ns opts"
  by (simp add: getLogger_def Let_def)

lemma registry_le_nth:
  "registry_le st st' \<Longrightarrow> r < length (heap st) \<Longrightarrow> heap st' ! r = heap st ! r"
  unfolding registry_le_def by (auto simp: nth_append)

section \<open>Files and listings\<close>

lemma single_line_snoc: "single_line (l @ [CHR 0x0A]) \<longleftrightarrow> CHR 0x0A \<notin> set l"
  by (simp add: single_line_def)

lemma file_content_log_other:
  assumes "d \<noteq> dir lg \<or> n \<noteq> log_filename now"
  shows "file_content (fs (log rv N lg level content format now st)) d n = file_content (fs st) d n"
proof (cases "d = dir lg")
  case False
  then show ?thesis
    by (simp add: fs_log file_content_def appendFileSync_def mkdirSync_def split: option.splits)
next
  case True
  with assms have "n \<noteq> log_filename now" by simp
  with True show ?thesis
    by (simp add: fs_log file_content_def appendFileSync_def mkdirSync_def
          map_of_append_entry_other split: option.splits)
qed

lemma path_join_inj: "path_join d a = path_join d b \<longleftrightarrow> a = b"
  by (simp add: path_join_def)

lemma names_append_entry:
  "map fst (append_entry name data es) =
     (if name \<in> set (map fst es) then map fst es else map fst es @ [name])"
  by (induction es) (force simp: image_iff)+

lemma set_append_entry: "fst ` set (append_entry name data es) = insert name (fst ` set es)"
proof -
  have "set (map fst (append_entry name data es)) = insert name (set (map fst es))"
    by (subst names_append_entry) auto
  then show ?thesis by simp
qed

lemma log_filename_listed:
  "log_filename now \<in> set (readdirSync (dir lg) (fs (log rv N lg level content format now st)))"
  by (simp add: fs_log readdirSync_def appendFileSync_def mkdirSync_def set_append_entry
        split: option.splits)

lemma streams_log_prefix:
  "take (length (streams st)) (streams (log rv N lg level content format now st)) = streams st"
  by (simp add: log_def Let_def)

lemma new_streams_log:
  "drop (length (streams st)) (streams (log rv N lg level content format now st)) =
    (let need = filter (\<lambda>file. endsWith file ''.log'' \<and> file \<noteq> log_filename now)
                  (sort (readdirSync (dir lg) (fs (log rv N lg level content format now st))))
     in if \<not> isArchiving st \<and> need \<noteq> [] then
          [\<lparr> this = lg, archive = path_join (dir lg) ''archive.7z'',
             inputs = map (path_join (dir lg)) need, needArchive = need \<rparr>]
        else [])"
  by (simp add: streams_log Let_def)

lemma sorted_filter_sort: "sorted (filter P (sort (xs :: string list)))"
  by (simp add: sorted_wrt_filter)

lemma length_toISODate: "valid_utc t \<Longrightarrow> length (toISODate t) = 10"
  by (simp add: toISODate_def valid_utc_def length_padStart)

lemma toISO_date_prefix: "valid_utc t \<Longrightarrow> take 10 (toISO t) = toISODate t"
  by (simp add: toISO_def length_toISODate)

text \<open>No part of a line other than the formatted content and the namespace holds a newline.\<close>

lemma of_char_digit_char: "d < 10 \<Longrightarrow> (of_char (digit_char d) :: nat) = 48 + d"
  by (simp add: digit_char_def)

lemma digit_char_no_newline: "d < 10 \<Longrightarrow> digit_char d \<noteq> CHR 0x0A"
proof
  assume d: "d < 10" and e: "digit_char d = CHR 0x0A"
  from e have "(of_char (digit_char d) :: nat) = of_char (CHR 0x0A)" by simp
  with of_char_digit_char [OF d] show False by simp
qed

lemma show_nat_no_newline: "CHR 0x0A \<notin> set (show_nat n)"
proof (induction n rule: show_nat.induct)
  case (1 n)
  show ?case
  proof (cases "n < 10")
    case True
    then have "digit_char n \<noteq> CHR 0x0A" by (rule digit_char_no_newline)
    with True show ?thesis
      by (subst show_nat.simps) auto
  next
    case False
    have "n mod 10 < 10" by simp
    then have "digit_char (n mod 10) \<noteq> CHR 0x0A" by (rule digit_char_no_newline)
    with 1 False show ?thesis
      by (subst show_nat.simps) auto
  qed
qed

lemma padStart_no_newline: "CHR 0x0A \<notin> set (padStart k n)"
  by (auto simp: padStart_def show_nat_no_newline)

lemma toISO_no_newline: "CHR 0x0A \<notin> set (toISO t)"
  by (simp add: toISO_def toISODate_def padStart_no_newline)

lemma ERROR_TYPES_no_newline: "CHR 0x0A \<notin> set (ERROR_TYPES level)"
  by (cases level) simp_all

lemma log_line_newline:
  "CHR 0x0A \<in> set (log_line rv N lg level content format now) \<longleftrightarrow>
     CHR 0x0A \<in> set (util_format N (normalize_content N content) format)
     \<or> (rv = Part000 \<and> CHR 0x0A \<in> set (namespace lg))"
  by (cases rv) (auto simp: log_line_def toISO_no_newline ERROR_TYPES_no_newline)

section \<open>The sample inputs evaluated\<close>

lemma digit_char_simps:
  "digit_char 0 = CHR ''0''" "digit_char 1 = CHR ''1''" "digit_char 2 = CHR ''2''"
  "digit_char 3 = CHR ''3''" "digit_char 4 = CHR ''4''" "digit_char 5 = CHR ''5''"
  "digit_char 6 = CHR ''6''" "digit_char 7 = CHR ''7''" "digit_char 8 = CHR ''8''"
  "digit_char 9 = CHR ''9''"
  by code_simp+

lemma toISODate_test_time: "toISODate test_time = ''2022-03-04''"
  by (simp add: toISODate_def padStart_def test_time_def show_nat.simps digit_char_simps)

lemma toISODate_test_time2: "toISODate test_time2 = ''2022-03-05''"
  by (simp add: toISODate_def padStart_def test_time2_def show_nat.simps digit_char_simps)

lemma toISO_test_time: "toISO test_time = ''2022-03-04T05:06:07.089Z''"
  unfolding toISO_def toISODate_test_time
  by (simp add: padStart_def test_time_def show_nat.simps digit_char_simps)

lemma dir_test_logger: "dir (test_logger rv) = ''/app/logs''"
  by (simp add: test_logger_def new_Logger_def test_node_def path_join_def)

lemma sort_test_listing:
  "sort [''2020-01-02.log'', ''notes.txt'', ''2020-01-01.log'', ''2022-03-04.log''] =
     [''2020-01-01.log'', ''2020-01-02.log'', ''2022-03-04.log'', ''notes.txt'']"
  by code_simp

lemma test_listing:
  "readdirSync ''/app/logs'' (fs (log rv test_node (test_logger rv) level content format test_time (init test_fs)))
     = [''2020-01-02.log'', ''notes.txt'', ''2020-01-01.log'', ''2022-03-04.log'']"
  by (simp add: fs_log dir_test_logger init_def test_fs_def mkdirSync_def appendFileSync_def
        readdirSync_def log_filename_def toISODate_test_time)

lemma test_launch:
  "streams (log rv test_node (test_logger rv) level content format test_time (init test_fs)) =
     [\<lparr> this = test_logger rv, archive = ''/app/logs/archive.7z'',
        inputs = [''/app/logs/2020-01-01.log'', ''/app/logs/2020-01-02.log''],
        needArchive = [''2020-01-01.log'', ''2020-01-02.log''] \<rparr>]"
  by (simp add: streams_log dir_test_logger test_listing sort_test_listing log_filename_def
        toISODate_test_time endsWith_def)
     (simp add: init_def path_join_def dir_test_logger)

section \<open>The claims\<close>

text \<open>
  C1, as stated, fails. The claim: for every level and content, one call of \<open>log\<close> emits
  exactly one newline-terminated line to the console and appends exactly one such line
  to the file of the current UTC date. With a string content that holds a newline
  between \<open>a\<close> and \<open>b\<close>, the text appended to the file and the text written to the
  console both hold two lines.
\<close>

theorem log_multiline_counterexample:
  "file_content (fs
        (log Part000 test_node (test_logger Part000) INFO (JString (''a'' @ [CHR 0x0A] @ ''b'')) []
           test_time (init Map.empty))) ''/app/logs'' ''2022-03-04.log''
     = ''I 2022-03-04T05:06:07.089Z [core]: a'' @ [CHR 0x0A] @ ''b'' @ [CHR 0x0A]
 \<and> \<not> single_line (file_content (fs
        (log Part000 test_node (test_logger Part000) INFO (JString (''a'' @ [CHR 0x0A] @ ''b'')) []
           test_time (init Map.empty))) ''/app/logs'' ''2022-03-04.log'')
 \<and> \<not> single_line (strip_color (last (stdout
        (log Part000 test_node (test_logger Part000) INFO (JString (''a'' @ [CHR 0x0A] @ ''b'')) []
           test_time (init Map.empty)))))"
proof -
  let ?c = "JString (''a'' @ [CHR 0x0A] @ ''b'')"
  let ?line = "log_line Part000 test_node (test_logger Part000) INFO ?c [] test_time"
  let ?st' = "log Part000 test_node (test_logger Part000) INFO ?c [] test_time (init Map.empty)"
  have line: "?line = ''I 2022-03-04T05:06:07.089Z [core]: a'' @ [CHR 0x0A] @ ''b''"
    by (simp add: log_line_def util_format_def normalize_content_def toISO_test_time
          test_logger_def new_Logger_def)
  have name: "log_filename test_time = ''2022-03-04.log''"
    by (simp add: log_filename_def toISODate_test_time)
  have old: "file_content (fs (init Map.empty)) ''/app/logs'' ''2022-03-04.log'' = []"
    by (simp add: file_content_def init_def)
  have appended: "file_content (fs ?st') ''/app/logs'' ''2022-03-04.log'' = ?line @ [CHR 0x0A]"
    using file_content_log [of Part000 test_node "test_logger Part000" INFO ?c "[]" test_time "init Map.empty"]
    by (simp add: dir_test_logger name old)
  have console: "strip_color (last (stdout ?st')) = ?line @ [CHR 0x0A]"
    by (simp add: stdout_log strip_color_def)
  have two: "\<not> single_line (?line @ [CHR 0x0A])"
    unfolding single_line_snoc line by simp
  from appended [unfolded line] console [unfolded line] two [unfolded line] show ?thesis
    by simp
qed

text \<open>
  C1, amended. For every level and content, one call of \<open>log\<close> makes exactly one write to
  the console and appends exactly one text to the file of the current UTC date, leaving
  every other file as it was; both texts end with a newline, and the console text with
  its colour stripped is the appended text. The text is a single line exactly when
  neither the output of \<open>util.format\<close> nor, in \<open>part_000\<close>, where the line carries it, the
  namespace of the Logger holds a newline.
\<close>

theorem log_one_write_each:
  "let line = log_line rv N lg level content format now;
       st' = log rv N lg level content format now st
   in stdout st' = stdout st @ [(DEFAULT_COLORS rv level, line @ [CHR 0x0A])]
    \<and> strip_color (last (stdout st')) = line @ [CHR 0x0A]
    \<and> file_content (fs st') (dir lg) (log_filename now)
        = file_content (fs st) (dir lg) (log_filename now) @ line @ [CHR 0x0A]
    \<and> (\<forall>d n. d \<noteq> dir lg \<or> n \<noteq> log_filename now \<longrightarrow>
          file_content (fs st') d n = file_content (fs st) d n)
    \<and> (single_line (strip_color (last (stdout st'))) \<longleftrightarrow>
          CHR 0x0A \<notin> set (util_format N (normalize_content N content) format)
        \<and> (rv = Part000 \<longrightarrow> CHR 0x0A \<notin> set (namespace lg)))"
proof -
  let ?line = "log_line rv N lg level content format now"
  let ?st' = "log rv N lg level content format now st"
  have out: "stdout ?st' = stdout st @ [(DEFAULT_COLORS rv level, ?line @ [CHR 0x0A])]"
    by (rule stdout_log)
  then have stripped: "strip_color (last (stdout ?st')) = ?line @ [CHR 0x0A]"
    by (simp add: strip_color_def)
  have appended: "file_content (fs ?st') (dir lg) (log_filename now)
        = file_content (fs st) (dir lg) (log_filename now) @ ?line @ [CHR 0x0A]"
    by (rule file_content_log)
  have others: "\<forall>d n. d \<noteq> dir lg \<or> n \<noteq> log_filename now \<longrightarrow>
          file_content (fs ?st') d n = file_content (fs st) d n"
    by (simp add: file_content_log_other)
  have one: "single_line (strip_color (last (stdout ?st'))) \<longleftrightarrow>
          CHR 0x0A \<notin> set (util_format N (normalize_content N content) format)
        \<and> (rv = Part000 \<longrightarrow> CHR 0x0A \<notin> set (namespace lg))"
    unfolding stripped single_line_snoc log_line_newline by blast
  from out stripped appended others one show ?thesis
    unfolding Let_def by (intro conjI)
qed

text \<open>
  One call on the sample directory: content and namespace hold no newline, one line is
  written, and another file is left alone.
\<close>

theorem log_one_write_each_witness:
  "let st' = log Part000 test_node (test_logger Part000) INFO (JString ''hello'') [] test_time (init test_fs)
   in strip_color (last (stdout st')) = ''I 2022-03-04T05:06:07.089Z [core]: hello'' @ [CHR 0x0A]
    \<and> CHR 0x0A \<notin> set (util_format test_node (normalize_content test_node (JString ''hello'')) [])
    \<and> CHR 0x0A \<notin> set (namespace (test_logger Part000))
    \<and> single_line (strip_color (last (stdout st')))
    \<and> file_content (fs st') ''/app/logs'' ''2022-03-04.log''
        = ''I 2022-03-04T05:06:07.089Z [core]: hello'' @ [CHR 0x0A]
    \<and> file_content (fs st') ''/app/logs'' ''2020-01-01.log'' = ''y''"
proof -
  let ?line = "log_line Part000 test_node (test_logger Part000) INFO (JString ''hello'') [] test_time"
  let ?st' = "log Part000 test_node (test_logger Part000) INFO (JString ''hello'') [] test_time (init test_fs)"
  have line: "?line = ''I 2022-03-04T05:06:07.089Z [core]: hello''"
    by (simp add: log_line_def util_format_def normalize_content_def toISO_test_time
          test_logger_def new_Logger_def)
  have body: "CHR 0x0A \<notin> set (util_format test_node (normalize_content test_node (JString ''hello'')) [])"
    by (simp add: util_format_def normalize_content_def)
  have ns: "CHR 0x0A \<notin> set (namespace (test_logger Part000))"
    by (simp add: test_logger_def new_Logger_def)
  have cond: "CHR 0x0A \<notin> set (util_format test_node (normalize_content test_node (JString ''hello'')) [])
        \<and> (Part000 = Part000 \<longrightarrow> CHR 0x0A \<notin> set (namespace (test_logger Part000)))"
    using body ns by simp
  have name: "log_filename test_time = ''2022-03-04.log''"
    by (simp add: log_filename_def toISODate_test_time)
  have other: "''/app/logs'' \<noteq> dir (test_logger Part000) \<or> ''2020-01-01.log'' \<noteq> log_filename test_time"
    unfolding name by simp
  have old: "file_content (fs (init test_fs)) ''/app/logs'' ''2022-03-04.log'' = []"
    "file_content (fs (init test_fs)) ''/app/logs'' ''2020-01-01.log'' = ''y''"
    by (simp_all add: file_content_def init_def test_fs_def)
  note t = log_one_write_each [where rv = Part000 and N = test_node and lg = "test_logger Part000"
      and level = INFO and content = "JString ''hello''" and format = "[]" and now = test_time
      and st = "init test_fs", unfolded Let_def]
  note a = t [THEN conjunct2, THEN conjunct1]
  note b = t [THEN conjunct2, THEN conjunct2, THEN conjunct2, THEN conjunct2, THEN iffD2, OF cond]
  note c = t [THEN conjunct2, THEN conjunct2, THEN conjunct1]
  note d = t [THEN conjunct2, THEN conjunct2, THEN conjunct2, THEN conjunct1, rule_format, OF other]
  from a b c d body ns show ?thesis
    unfolding Let_def by (simp add: line name dir_test_logger old)
qed

text \<open>
  C2. For every namespace, two calls of \<open>getLogger\<close> with it return the same reference,
  whatever happens in the process between them and whatever options the later call
  passes: the later call changes nothing, and the object behind the reference is the
  one the first call left there, with the colours and directory of the first call's
  options when the first call created it.
\<close>

theorem getLogger_first_call_wins:
  "let st0 = run rv N (init F) evs0;
       r1 = fst (getLogger rv N ns o1 st0);
       st1 = snd (getLogger rv N ns o1 st0);
       st2 = run rv N st1 evs;
       r2 = fst (getLogger rv N ns o2 st2);
       st3 = snd (getLogger rv N ns o2 st2)
   in r2 = r1 \<and> st3 = st2 \<and> r1 < length (heap st1) \<and> heap st3 ! r2 = heap st1 ! r1
      \<and> (loggers st0 ns = None \<longrightarrow> heap st3 ! r2 = new_Logger rv N ns o1)"
proof -
  define st0 where "st0 = run rv N (init F) evs0"
  define r1 where "r1 = fst (getLogger rv N ns o1 st0)"
  define st1 where "st1 = snd (getLogger rv N ns o1 st0)"
  define st2 where "st2 = run rv N st1 evs"
  have wf0: "registry_wf st0"
    unfolding st0_def using run_registry [OF registry_wf_init] by blast
  have wf1: "registry_wf st1"
    unfolding st1_def by (rule getLogger_wf [OF wf0])
  have reg1: "loggers st1 ns = Some r1"
    unfolding st1_def r1_def by (rule getLogger_registered)
  from wf1 reg1 have len: "r1 < length (heap st1)"
    by (simp add: registry_wf_def)
  have le: "registry_le st1 st2"
    unfolding st2_def using run_registry [OF wf1] by blast
  from le reg1 have reg2: "loggers st2 ns = Some r1"
    by (simp add: registry_le_def)
  have same: "getLogger rv N ns o2 st2 = (r1, st2)"
    by (rule getLogger_known [OF reg2])
  have obj: "heap st2 ! r1 = heap st1 ! r1"
    by (rule registry_le_nth [OF le len])
  have fresh: "loggers st0 ns = None \<longrightarrow> heap st1 ! r1 = new_Logger rv N ns o1"
    unfolding st1_def r1_def by (simp add: getLogger_fresh)
  from same len obj fresh show ?thesis
    unfolding Let_def st0_def [symmetric] r1_def [symmetric] st1_def [symmetric] st2_def [symmetric]
    by simp
qed

text \<open>A first call with one directory, a later call with another: the first directory stays.\<close>

theorem getLogger_first_call_wins_witness:
  "let st1 = snd (getLogger Part000 test_node ''core'' (Some (test_options ''/var/log/a'')) (init Map.empty));
       st2 = run Part000 test_node st1 [CallGetLogger ''other'' None];
       r2 = fst (getLogger Part000 test_node ''core'' (Some (test_options ''/var/log/b'')) st2);
       st3 = snd (getLogger Part000 test_node ''core'' (Some (test_options ''/var/log/b'')) st2)
   in loggers (init Map.empty) ''core'' = None \<and> dir (heap st3 ! r2) = ''/var/log/a''"
proof -
  let ?a = "Some (test_options ''/var/log/a'')" and ?b = "Some (test_options ''/var/log/b'')"
  let ?st1 = "snd (getLogger Part000 test_node ''core'' ?a (init Map.empty))"
  let ?st2 = "run Part000 test_node ?st1 [CallGetLogger ''other'' None]"
  let ?r2 = "fst (getLogger Part000 test_node ''core'' ?b ?st2)"
  let ?st3 = "snd (getLogger Part000 test_node ''core'' ?b ?st2)"
  have run0: "run Part000 test_node (init Map.empty) [] = init Map.empty"
    by (simp add: run_def)
  have unreg: "loggers (init Map.empty) ''core'' = None"
    by (simp add: init_def)
  have d: "dir (new_Logger Part000 test_node ''core'' ?a) = ''/var/log/a''"
    by (simp add: new_Logger_def test_options_def)
  have "loggers (init Map.empty) ''core'' = None \<longrightarrow> heap ?st3 ! ?r2 = new_Logger Part000 test_node ''core'' ?a"
    using getLogger_first_call_wins [where rv = Part000 and N = test_node and ns = "''core''"
      and ?o1.0 = ?a and ?o2.0 = ?b and F = Map.empty and ?evs0.0 = "[]"
      and evs = "[CallGetLogger ''other'' None]"]
    unfolding Let_def run0 by blast
  with unreg d show ?thesis
    unfolding Let_def by simp
qed

text \<open>
  C3. For every call of \<open>log\<close>, a compaction that the call launches is handed exactly
  the entries of the directory that end in \<open>.log\<close> and differ from the file name of the
  current UTC date, in sorted order; the file of today, which is in the listing since
  the call has just appended to it, is not among the names nor among the paths.
\<close>

theorem compaction_inputs:
  "let st' = log rv N lg level content format now st;
       listing = readdirSync (dir lg) (fs st');
       today = log_filename now
   in take (length (streams st)) (streams st') = streams st
    \<and> today \<in> set listing
    \<and> (\<forall>c \<in> set (drop (length (streams st)) (streams st')).
          needArchive c = filter (\<lambda>file. endsWith file ''.log'' \<and> file \<noteq> today) (sort listing)
        \<and> set (needArchive c) = {file \<in> set listing. endsWith file ''.log'' \<and> file \<noteq> today}
        \<and> sorted (needArchive c)
        \<and> inputs c = map (path_join (dir lg)) (needArchive c)
        \<and> today \<notin> set (needArchive c)
        \<and> path_join (dir lg) today \<notin> set (inputs c))"
proof -
  let ?st' = "log rv N lg level content format now st"
  let ?need = "filter (\<lambda>file. endsWith file ''.log'' \<and> file \<noteq> log_filename now)
                 (sort (readdirSync (dir lg) (fs ?st')))"
  have set_need: "set ?need = {file \<in> set (readdirSync (dir lg) (fs ?st')).
                     endsWith file ''.log'' \<and> file \<noteq> log_filename now}"
    by auto
  have sorted_need: "sorted ?need"
    by (rule sorted_filter_sort)
  have excl: "log_filename now \<notin> set ?need"
    by simp
  have excl_path: "path_join (dir lg) (log_filename now) \<notin> set (map (path_join (dir lg)) ?need)"
    by (auto simp: path_join_inj)
  have new: "\<forall>c \<in> set (drop (length (streams st)) (streams ?st')).
      needArchive c = ?need \<and> inputs c = map (path_join (dir lg)) ?need"
    by (simp add: new_streams_log Let_def)
  show ?thesis
    unfolding Let_def
  proof (intro conjI ballI)
    show "take (length (streams st)) (streams ?st') = streams st"
      by (rule streams_log_prefix)
    show "log_filename now \<in> set (readdirSync (dir lg) (fs ?st'))"
      by (rule log_filename_listed)
  next
    fix c assume c: "c \<in> set (drop (length (streams st)) (streams ?st'))"
    with new have n: "needArchive c = ?need" and i: "inputs c = map (path_join (dir lg)) ?need"
      by blast+
    show "needArchive c = ?need" by (rule n)
    show "set (needArchive c) = {file \<in> set (readdirSync (dir lg) (fs ?st')).
                     endsWith file ''.log'' \<and> file \<noteq> log_filename now}"
      unfolding n by (rule set_need)
    show "sorted (needArchive c)" unfolding n by (rule sorted_need)
    show "inputs c = map (path_join (dir lg)) (needArchive c)" unfolding n i ..
    show "log_filename now \<notin> set (needArchive c)" unfolding n by (rule excl)
    show "path_join (dir lg) (log_filename now) \<notin> set (inputs c)" unfolding i by (rule excl_path)
  qed
qed

text \<open>The sample directory: the two files of earlier days are handed over, in order.\<close>

theorem compaction_inputs_witness:
  "let st' = log Part000 test_node (test_logger Part000) INFO (JString ''hello'') [] test_time (init test_fs)
   in \<exists>c \<in> set (drop (length (streams (init test_fs))) (streams st')).
        needArchive c = [''2020-01-01.log'', ''2020-01-02.log'']
      \<and> sorted (needArchive c)
      \<and> ''2022-03-04.log'' \<notin> set (needArchive c)
      \<and> inputs c = [''/app/logs/2020-01-01.log'', ''/app/logs/2020-01-02.log'']"
proof -
  let ?st' = "log Part000 test_node (test_logger Part000) INFO (JString ''hello'') [] test_time (init test_fs)"
  let ?c = "\<lparr> this = test_logger Part000, archive = ''/app/logs/archive.7z'',
        inputs = [''/app/logs/2020-01-01.log'', ''/app/logs/2020-01-02.log''],
        needArchive = [''2020-01-01.log'', ''2020-01-02.log''] \<rparr>"
  have mem: "?c \<in> set (drop (length (streams (init test_fs))) (streams ?st'))"
    by (simp add: test_launch) (simp add: init_def)
  have name: "log_filename test_time = ''2022-03-04.log''"
    by (simp add: log_filename_def toISODate_test_time)
  note t = compaction_inputs [where rv = Part000 and N = test_node and lg = "test_logger Part000"
      and level = INFO and content = "JString ''hello''" and format = "[]" and now = test_time
      and st = "init test_fs", unfolded Let_def, THEN conjunct2, THEN conjunct2, rule_format, OF mem]
  from t have "sorted (needArchive ?c)" and "log_filename test_time \<notin> set (needArchive ?c)"
    by blast+
  with mem show ?thesis
    unfolding Let_def name by (intro bexI [of _ ?c]) simp_all
qed

text \<open>
  C4 states that after a failed compression the flag is cleared, so that a later call
  can launch a compaction again. The code on that input: a call launches a compaction
  of the sample directory and the engine signals \<open>error\<close>. The flag stays set, the old
  files are still there, and no later run of the process launches a compaction or
  clears the flag.
\<close>

theorem compression_failure_wedges_archiving:
  "let st1 = run rv test_node (init test_fs)
               [CallLog (test_logger rv) INFO (JString ''hello'') [] test_time, StreamError 0]
   in isArchiving st1 \<and> streams st1 = []
      \<and> set (readdirSync ''/app/logs'' (fs st1)) \<inter> {''2020-01-01.log'', ''2020-01-02.log''} \<noteq> {}
      \<and> (\<forall>evs. isArchiving (run rv test_node st1 evs) \<and> streams (run rv test_node st1 evs) = [])"
proof -
  let ?st0 = "log rv test_node (test_logger rv) INFO (JString ''hello'') [] test_time (init test_fs)"
  let ?st1 = "run rv test_node (init test_fs)
               [CallLog (test_logger rv) INFO (JString ''hello'') [] test_time, StreamError 0]"
  have one: "length (streams ?st0) = 1"
    by (simp add: test_launch)
  have st1: "?st1 = ?st0\<lparr> streams := [] \<rparr>"
    using one by (simp add: run_def drop_nth_single)
  have "streams ?st0 \<noteq> streams (init test_fs)"
    using one by (auto simp: init_def)
  then have flag: "isArchiving ?st0"
    by (rule log_sets_flag)
  have w: "wedged ?st1"
    unfolding st1 using flag by (simp add: wedged_def)
  have files: "readdirSync ''/app/logs'' (fs ?st1) =
      [''2020-01-02.log'', ''notes.txt'', ''2020-01-01.log'', ''2022-03-04.log'']"
    unfolding st1 by (simp add: test_listing)
  have "\<forall>evs. wedged (run rv test_node ?st1 evs)"
    using wedged_run [OF w] by blast
  with w files show ?thesis
    unfolding Let_def wedged_def by simp
qed

text \<open>
  C5. The flag is one boolean of the process state, not a field of a Logger. In every
  state the process can reach there is at most one compaction in progress, and the
  flag is set while there is one; \<open>log\<close>, on any Logger, launches nothing when the flag
  is set, and a call that launches a compaction found the flag clear and leaves it set.
\<close>

theorem one_flag_one_compaction:
  "(let S = run rv N (init F) evs
    in length (streams S) \<le> 1 \<and> (streams S \<noteq> [] \<longrightarrow> isArchiving S))
 \<and> (isArchiving st \<longrightarrow> streams (log rv N lg level content format now st) = streams st)
 \<and> (streams (log rv N lg level content format now st) \<noteq> streams st \<longrightarrow>
       \<not> isArchiving st \<and> isArchiving (log rv N lg level content format now st))"
proof -
  have "at_most_one (run rv N (init F) evs)"
    by (rule at_most_one_run [OF at_most_one_init])
  moreover have "isArchiving st \<longrightarrow> streams (log rv N lg level content format now st) = streams st"
    by (simp add: log_guard)
  moreover have "streams (log rv N lg level content format now st) \<noteq> streams st \<longrightarrow>
       \<not> isArchiving st \<and> isArchiving (log rv N lg level content format now st)"
    using log_guard [of st rv N lg level content format now] log_sets_flag [of rv N lg level content format now st]
    by blast
  ultimately show ?thesis
    unfolding Let_def at_most_one_def by blast
qed

text \<open>
  A call launches a compaction; a call on the Logger of another namespace, on the next
  day, launches none.
\<close>

theorem one_flag_one_compaction_witness:
  "let st1 = log Part000 test_node (test_logger Part000) INFO (JString ''hello'') [] test_time (init test_fs);
       st2 = log Part000 test_node (other_logger Part000) ERROR (JString ''again'') [] test_time2 st1
   in streams st1 \<noteq> streams (init test_fs) \<and> isArchiving st1 \<and> streams st2 = streams st1
      \<and> length (streams (run Part000 test_node (init test_fs)
            [CallLog (test_logger Part000) INFO (JString ''hello'') [] test_time])) = 1"
proof -
  let ?st1 = "log Part000 test_node (test_logger Part000) INFO (JString ''hello'') [] test_time (init test_fs)"
  let ?st2 = "log Part000 test_node (other_logger Part000) ERROR (JString ''again'') [] test_time2 ?st1"
  let ?evs = "[CallLog (test_logger Part000) INFO (JString ''hello'') [] test_time]"
  have launched: "streams ?st1 \<noteq> streams (init test_fs)"
    by (simp add: test_launch) (simp add: init_def)
  have run1: "run Part000 test_node (init test_fs) ?evs = ?st1"
    by (simp add: run_def)
  from launched
    one_flag_one_compaction [where rv = Part000 and N = test_node and st = "init test_fs"
      and lg = "test_logger Part000" and level = INFO and content = "JString ''hello''"
      and format = "[]" and now = test_time]
  have flag: "isArchiving ?st1" by blast
  from flag
    one_flag_one_compaction [where rv = Part000 and N = test_node and st = ?st1
      and lg = "other_logger Part000" and level = ERROR and content = "JString ''again''"
      and format = "[]" and now = test_time2]
  have blocked: "streams ?st2 = streams ?st1" by blast
  from one_flag_one_compaction [where rv = Part000 and N = test_node and F = test_fs and evs = ?evs]
  have "length (streams ?st1) \<le> 1"
    unfolding Let_def run1 by blast
  moreover from launched have "streams ?st1 \<noteq> []" by (simp add: init_def)
  ultimately have "length (streams ?st1) = 1"
    by (cases "streams ?st1") simp_all
  with launched flag blocked show ?thesis
    unfolding Let_def run1 by simp
qed

text \<open>
  C6 states that the console colour is taken from the instance's own \<open>colors\<close>, so that an
  override in the creation options changes the output. The code on that input, in both
  revisions: a Logger created with an all-black palette holds black for \<open>ERROR\<close>, and its
  \<open>ERROR\<close> line goes out in the built-in colour, which is another one.
\<close>

theorem log_ignores_instance_colors:
  "let st1 = snd (getLogger rv test_node ''core'' (Some (test_options ''/var/log/a'')) (init Map.empty));
       lg = heap st1 ! fst (getLogger rv test_node ''core'' (Some (test_options ''/var/log/a'')) (init Map.empty));
       st2 = log rv test_node lg ERROR (JString ''boom'') [] test_time st1
   in colors lg ERROR = (case rv of Part000 \<Rightarrow> Hex ''#000000'' | Part001 \<Rightarrow> Hsl 0 0 0)
      \<and> map fst (stdout st2) = [DEFAULT_COLORS rv ERROR]
      \<and> DEFAULT_COLORS rv ERROR \<noteq> colors lg ERROR"
  unfolding Let_def
  by (cases rv)
     (simp_all add: stdout_log getLogger_def Let_def init_def new_Logger_def test_options_def)

text \<open>
  C7. Within one call the timestamp in the line and the date in the file name come from
  the same instant: the file name is the ISO date of the instant, the line holds its ISO
  timestamp, and the date is the first ten characters of the timestamp. Two calls on
  one Logger at instants of the same UTC day append to the same file; at instants of
  different UTC days they append to two distinct files.
\<close>

theorem one_file_per_utc_day:
  assumes "valid_utc a" and "valid_utc b"
  shows
  "let st1 = log rv N lg level1 content1 format1 a st;
       st2 = log rv N lg level2 content2 format2 b st1;
       line1 = log_line rv N lg level1 content1 format1 a @ [CHR 0x0A];
       line2 = log_line rv N lg level2 content2 format2 b @ [CHR 0x0A];
       old = file_content (fs st) (dir lg);
       new = file_content (fs st2) (dir lg)
   in log_filename a = toISODate a @ ''.log''
    \<and> log_line rv N lg level1 content1 format1 a
        = log_message rv (ERROR_TYPES level1) (toISO a) (namespace lg)
            (util_format N (normalize_content N content1) format1)
    \<and> take 10 (toISO a) = toISODate a
    \<and> (same_utc_day a b \<longrightarrow>
          log_filename a = log_filename b
        \<and> new (log_filename a) = old (log_filename a) @ line1 @ line2)
    \<and> (\<not> same_utc_day a b \<longrightarrow>
          log_filename a \<noteq> log_filename b
        \<and> new (log_filename a) = old (log_filename a) @ line1
        \<and> new (log_filename b) = old (log_filename b) @ line2)"
proof -
  let ?st1 = "log rv N lg level1 content1 format1 a st"
  let ?st2 = "log rv N lg level2 content2 format2 b ?st1"
  let ?line1 = "log_line rv N lg level1 content1 format1 a @ [CHR 0x0A]"
  let ?line2 = "log_line rv N lg level2 content2 format2 b @ [CHR 0x0A]"
  note names = log_filename_eq_iff [OF assms]
  have same: "new_a = old_a @ ?line1 @ ?line2"
    if "log_filename a = log_filename b"
      and "new_a = file_content (fs ?st2) (dir lg) (log_filename a)"
      and "old_a = file_content (fs st) (dir lg) (log_filename a)"
    for new_a old_a
  proof -
    have "file_content (fs ?st2) (dir lg) (log_filename b)
        = file_content (fs ?st1) (dir lg) (log_filename b) @ ?line2"
      by (rule file_content_log)
    moreover have "file_content (fs ?st1) (dir lg) (log_filename a)
        = file_content (fs st) (dir lg) (log_filename a) @ ?line1"
      by (rule file_content_log)
    ultimately show ?thesis using that by simp
  qed
  have diff_a: "file_content (fs ?st2) (dir lg) (log_filename a)
        = file_content (fs st) (dir lg) (log_filename a) @ ?line1"
    if "log_filename a \<noteq> log_filename b"
  proof -
    have "file_content (fs ?st2) (dir lg) (log_filename a) = file_content (fs ?st1) (dir lg) (log_filename a)"
      using that by (intro file_content_log_other) simp
    then show ?thesis by (simp add: file_content_log)
  qed
  have diff_b: "file_content (fs ?st2) (dir lg) (log_filename b)
        = file_content (fs st) (dir lg) (log_filename b) @ ?line2"
    if "log_filename a \<noteq> log_filename b"
  proof -
    have "file_content (fs ?st1) (dir lg) (log_filename b) = file_content (fs st) (dir lg) (log_filename b)"
      using that by (intro file_content_log_other) auto
    then show ?thesis by (simp add: file_content_log)
  qed
  show ?thesis
    unfolding Let_def
  proof (intro conjI impI)
    show "log_filename a = toISODate a @ ''.log''" by (simp add: log_filename_def)
    show "log_line rv N lg level1 content1 format1 a
        = log_message rv (ERROR_TYPES level1) (toISO a) (namespace lg)
            (util_format N (normalize_content N content1) format1)"
      by (simp add: log_line_def)
    show "take 10 (toISO a) = toISODate a" by (rule toISO_date_prefix [OF assms(1)])
  next
    assume s: "same_utc_day a b"
    with names show eq: "log_filename a = log_filename b" by simp
    show "file_content (fs ?st2) (dir lg) (log_filename a)
        = file_content (fs st) (dir lg) (log_filename a) @ ?line1 @ ?line2"
      by (rule same [OF eq refl refl])
  next
    assume "\<not> same_utc_day a b"
    with names show ne: "log_filename a \<noteq> log_filename b" by simp
    show "file_content (fs ?st2) (dir lg) (log_filename a)
        = file_content (fs st) (dir lg) (log_filename a) @ ?line1"
      by (rule diff_a [OF ne])
    show "file_content (fs ?st2) (dir lg) (log_filename b)
        = file_content (fs st) (dir lg) (log_filename b) @ ?line2"
      by (rule diff_b [OF ne])
  qed
qed

text \<open>Two calls on 4 March 2022, and one on 4 March followed by one on 5 March.\<close>

theorem one_file_per_utc_day_witness:
  "let lg = test_logger Part001;
       st1 = log Part001 test_node lg INFO (JString ''one'') [] test_time (init Map.empty);
       same = log Part001 test_node lg WARNING (JString ''two'') [] test_time3 st1;
       next_day = log Part001 test_node lg WARNING (JString ''two'') [] test_time2 st1
   in valid_utc test_time \<and> valid_utc test_time2 \<and> valid_utc test_time3
    \<and> same_utc_day test_time test_time3 \<and> \<not> same_utc_day test_time test_time2
    \<and> file_content (fs same) ''/app/logs'' ''2022-03-04.log''
        = ''I 2022-03-04T05:06:07.089Z: one'' @ [CHR 0x0A] @ ''W 2022-03-04T23:59:59.999Z: two'' @ [CHR 0x0A]
    \<and> file_content (fs next_day) ''/app/logs'' ''2022-03-04.log''
        = ''I 2022-03-04T05:06:07.089Z: one'' @ [CHR 0x0A]
    \<and> file_content (fs next_day) ''/app/logs'' ''2022-03-05.log''
        = ''W 2022-03-05T00:00:00.000Z: two'' @ [CHR 0x0A]"
proof -
  let ?lg = "test_logger Part001"
  have v: "valid_utc test_time" "valid_utc test_time2" "valid_utc test_time3"
    by (simp_all add: valid_utc_def test_time_def test_time2_def test_time3_def)
  have s: "same_utc_day test_time test_time3" and n: "\<not> same_utc_day test_time test_time2"
    by (simp_all add: same_utc_day_def test_time_def test_time2_def test_time3_def)
  have iso3: "toISO test_time3 = ''2022-03-04T23:59:59.999Z''"
    by (simp add: toISO_def toISODate_def padStart_def test_time3_def show_nat.simps digit_char_simps)
  have iso2: "toISO test_time2 = ''2022-03-05T00:00:00.000Z''"
    unfolding toISO_def toISODate_test_time2
    by (simp add: padStart_def test_time2_def show_nat.simps digit_char_simps numeral_2_eq_2)
  have names: "log_filename test_time = ''2022-03-04.log''" "log_filename test_time2 = ''2022-03-05.log''"
    by (simp_all add: log_filename_def toISODate_test_time toISODate_test_time2)
  have lines:
    "log_line Part001 test_node ?lg INFO (JString ''one'') [] test_time = ''I 2022-03-04T05:06:07.089Z: one''"
    "log_line Part001 test_node ?lg WARNING (JString ''two'') [] test_time3 = ''W 2022-03-04T23:59:59.999Z: two''"
    "log_line Part001 test_node ?lg WARNING (JString ''two'') [] test_time2 = ''W 2022-03-05T00:00:00.000Z: two''"
    by (simp_all add: log_line_def util_format_def normalize_content_def toISO_test_time iso2 iso3)
  have old: "file_content (fs (init Map.empty)) ''/app/logs'' name = []" for name
    by (simp add: file_content_def init_def)
  note same = one_file_per_utc_day [OF v(1) v(3), where rv = Part001 and N = test_node and lg = ?lg
      and ?level1.0 = INFO and ?content1.0 = "JString ''one''" and ?format1.0 = "[]"
      and ?level2.0 = WARNING and ?content2.0 = "JString ''two''" and ?format2.0 = "[]"
      and st = "init Map.empty", unfolded Let_def,
      THEN conjunct2, THEN conjunct2, THEN conjunct2, THEN conjunct1, rule_format, OF s]
  note diff = one_file_per_utc_day [OF v(1) v(2), where rv = Part001 and N = test_node and lg = ?lg
      and ?level1.0 = INFO and ?content1.0 = "JString ''one''" and ?format1.0 = "[]"
      and ?level2.0 = WARNING and ?content2.0 = "JString ''two''" and ?format2.0 = "[]"
      and st = "init Map.empty", unfolded Let_def,
      THEN conjunct2, THEN conjunct2, THEN conjunct2, THEN conjunct2, rule_format, OF n]
  from same [THEN conjunct2] diff [THEN conjunct2] v s n show ?thesis
    unfolding Let_def by (simp add: old lines names dir_test_logger)
qed

text \<open>
  C8. For every content and format arguments, \<open>verbose\<close>, \<open>info\<close>, \<open>warn\<close> and \<open>error\<close>
  do exactly what \<open>log\<close> does at the level \<open>VERBOSE\<close>, \<open>INFO\<close>, \<open>WARNING\<close> and \<open>ERROR\<close>:
  the wrappers' own normalisation of a content that is not a string changes nothing,
  since \<open>log\<close> normalises in the same way. The whole resulting state is the same.
\<close>

theorem wrappers_are_log:
  "verbose rv N lg content format now st = log rv N lg VERBOSE content format now st
 \<and> info rv N lg content format now st = log rv N lg INFO content format now st
 \<and> warn rv N lg content format now st = log rv N lg WARNING content format now st
 \<and> error rv N lg content format now st = log rv N lg ERROR content format now st"
  by (simp add: verbose_def info_def warn_def error_def log_normalized)

text \<open>
  C9. \<open>getenv(name)\<close> returns the raw string of the variable, or \<open>null\<close> when it is unset;
  with \<open>number = true\<close> it returns the parsed number, or \<open>null\<close> when the variable is
  unset or does not parse to a number; with \<open>assert = true\<close> it throws in each of these
  missing or invalid cases instead of returning \<open>null\<close>.
\<close>

theorem getenv_results:
  "(env name = None \<longrightarrow>
      getenv parseFloat isNaN env name number False = Inr None
    \<and> getenv parseFloat isNaN env name number True
        = Inl (TypeError (''Missing environment variable: '' @ name)))
 \<and> (env name = Some v \<longrightarrow>
      getenv parseFloat isNaN env name False assert = Inr (Some (EnvString v)))
 \<and> (env name = Some v \<and> \<not> isNaN (parseFloat v) \<longrightarrow>
      getenv parseFloat isNaN env name True assert = Inr (Some (EnvNumber (parseFloat v))))
 \<and> (env name = Some v \<and> isNaN (parseFloat v) \<longrightarrow>
      getenv parseFloat isNaN env name True False = Inr None
    \<and> getenv parseFloat isNaN env name True True
        = Inl (TypeError (''Missing environment variable: '' @ name)))"
  by (simp add: getenv_def)

text \<open>The cases of the repository's test file: an unset key, \<open>"foo"\<close> and \<open>"-123"\<close>.\<close>

theorem getenv_results_witness:
  "getenv test_parseFloat test_isNaN test_env ''KEY2'' False False = Inr None
 \<and> getenv test_parseFloat test_isNaN test_env ''KEY2'' True False = Inr None
 \<and> getenv test_parseFloat test_isNaN test_env ''KEY2'' False True
      = Inl (TypeError ''Missing environment variable: KEY2'')
 \<and> getenv test_parseFloat test_isNaN test_env ''KEY1'' False False = Inr (Some (EnvString ''foo''))
 \<and> getenv test_parseFloat test_isNaN test_env ''KEY1'' True False = Inr None
 \<and> getenv test_parseFloat test_isNaN test_env ''KEY1'' True True
      = Inl (TypeError ''Missing environment variable: KEY1'')
 \<and> getenv test_parseFloat test_isNaN test_env ''KEY4'' True True = Inr (Some (EnvNumber (Some (- 123))))"
proof -
  have unset: "test_env ''KEY2'' = None"
    and k1: "test_env ''KEY1'' = Some ''foo''"
    and k4: "test_env ''KEY4'' = Some ''-123''"
    by (simp_all add: test_env_def)
  have nan: "test_isNaN (test_parseFloat ''foo'')"
    and num: "\<not> test_isNaN (test_parseFloat ''-123'')" "test_parseFloat ''-123'' = Some (- 123)"
    by (simp_all add: test_parseFloat_def test_isNaN_def)
  note r = getenv_results [where parseFloat = test_parseFloat and isNaN = test_isNaN and env = test_env]
  from r [where name = "''KEY2''" and number = False] r [where name = "''KEY2''" and number = True] unset
  have a: "getenv test_parseFloat test_isNaN test_env ''KEY2'' False False = Inr None"
    "getenv test_parseFloat test_isNaN test_env ''KEY2'' True False = Inr None"
    "getenv test_parseFloat test_isNaN test_env ''KEY2'' False True
      = Inl (TypeError ''Missing environment variable: KEY2'')"
    by simp_all
  from r [where name = "''KEY1''" and v = "''foo''" and assert = False] k1 nan
  have b: "getenv test_parseFloat test_isNaN test_env ''KEY1'' False False = Inr (Some (EnvString ''foo''))"
    "getenv test_parseFloat test_isNaN test_env ''KEY1'' True False = Inr None"
    "getenv test_parseFloat test_isNaN test_env ''KEY1'' True True
      = Inl (TypeError ''Missing environment variable: KEY1'')"
    by simp_all
  from r [where name = "''KEY4''" and v = "''-123''" and assert = True] k4 num
  have c: "getenv test_parseFloat test_isNaN test_env ''KEY4'' True True = Inr (Some (EnvNumber (Some (- 123))))"
    by simp
  from a b c show ?thesis by simp
qed

text \<open>
  C10. \<open>getDefault\<close> takes the namespace \<open>default\<close> when the manifest lookup throws and
  also when it succeeds with the empty string; in both cases it is \<open>getLogger\<close> called
  with \<open>default\<close> and no options. A manifest name that is not empty is used as it is.
\<close>

theorem getDefault_fallback:
  "getDefault rv N LookupThrows st = getLogger rv N ''default'' None st
 \<and> getDefault rv N (Name []) st = getLogger rv N ''default'' None st
 \<and> getDefault rv N (Name ''remoji'') st = getLogger rv N ''remoji'' None st"
  by (simp add: getDefault_def)

end
